theory Spec2Isabelle
  imports Main "HOL-Library.AList"
begin

section \<open>Go values: errors, panics, handles\<close>

text \<open>
  The package \<open>writer\<close> (writer.go, default_writer.go) is embedded function by function.
  A Go function that returns \<open>error\<close> returns an \<open>error option\<close> here (\<open>None\<close> is
  \<open>nil\<close>); a run-time panic is the value \<open>Panic\<close> of the type \<open>exec\<close>.  An
  \<open>*os.File\<close> is \<open>os_File option\<close>: \<open>None\<close> is the nil pointer, \<open>Some (File name fd)\<close> a
  handle with its \<open>Name()\<close> and an identity.  The locks of the source are left out: the
  operations are modelled in one sequential order.
\<close>

datatype oserr = ErrClosed | ErrOS string
  \<comment> \<open>an error of the os package; \<open>ErrClosed\<close> is the one whose text contains "already closed"\<close>

datatype error =
    ContextErr
  | WriterIsNil | FilesIsNil | ModeIsNil | MessageIsNil | FilesIsEmpty
  | NilFilePointer
  | InvalidMode string
  | OpenFailed string oserr
  | WriteFailed string oserr
  | FlushFailed string oserr
  | ExhaustedRetries error
  | MultipleCloseErrors "(string \<times> oserr) list"
  | ConfigIsNil | NotOfType string | UnknownKey string

datatype panic =
    NilDereference | InterfaceConversion string | MakeSliceLenOutOfRange
  | SliceBoundsOutOfRange | IntegerDivideByZero

datatype 'a exec = Panic panic | Return 'a

definition exec_bind :: "'a exec \<Rightarrow> ('a \<Rightarrow> 'b exec) \<Rightarrow> 'b exec" where
  "exec_bind x f = (case x of Panic p \<Rightarrow> Panic p | Return v \<Rightarrow> f v)"

datatype os_File = File (fname: string) (fd: nat)

datatype Mode = Mode (mode_str: "string option")
  \<comment> \<open>\<open>type Mode struct { mode *string }\<close>\<close>

datatype "context" = Context (done_at: "nat \<Rightarrow> bool")
  \<comment> \<open>a context.Context: whether \<open>Done()\<close> is closed at a given moment of the run\<close>

datatype float64 = F64_zero | F64_quot nat nat
  \<comment> \<open>the two float64 values Write computes: \<open>0.0\<close> and \<open>float64(a) / float64(b)\<close>, kept symbolic\<close>

record Writer =
  files :: "os_File option list option"
  mode :: "Mode option"
  message :: "string option"
  openFilesPool :: "(string \<times> os_File) list"
  connLastUsed :: "(string \<times> nat) list"
  maxConns :: nat
  retries :: nat
  backoff :: nat
  ctx :: "context option"

text \<open>
  \<open>maxConns\<close>, \<open>retries\<close> and \<open>backoff\<close> are \<open>uint64\<close> in the source.  They are only
  compared, decremented towards zero, or doubled while below 1000, so no operation on them
  wraps and \<open>nat\<close> carries the same values.  The two \<open>sync.Map\<close>s are association lists
  with distinct keys; \<open>Range\<close> visits them in list order.
\<close>

record Results =
  Total :: nat
  ErrSlice :: "error list"
  Success :: nat
  Failure :: nat
  SuccessRate :: float64
  FailureRate :: float64
  Info :: "string \<rightharpoonup> string"

section \<open>The operating system\<close>

text \<open>
  What the outside world answers is a parameter: \<open>os_env\<close> gives, for each interaction
  and the moment \<open>step\<close> at which it happens, the answer of the system.  \<open>world\<close> is the
  part of the outside the program changes: the moment, the handles it closed, and the
  durations it slept.
\<close>

datatype open_flags = RDWR_CREATE_APPEND | RDWR_CREATE_TRUNC
  \<comment> \<open>\<open>os.O_RDWR | os.O_CREATE | os.O_APPEND\<close> and \<open>os.O_RDWR | os.O_CREATE | os.O_TRUNC\<close>\<close>

record os_env =
  NumCPU :: nat
  Now :: "nat \<Rightarrow> nat"
  stat_fails :: "os_File \<Rightarrow> nat \<Rightarrow> bool"
  open_file :: "string \<Rightarrow> open_flags \<Rightarrow> nat \<Rightarrow> oserr + nat"
  write_string :: "os_File \<Rightarrow> nat \<Rightarrow> oserr option"
  flush :: "os_File \<Rightarrow> nat \<Rightarrow> oserr option"
  close_file :: "os_File \<Rightarrow> nat \<Rightarrow> oserr option"

record world =
  step :: nat
  closed :: "nat list"
  slept :: "int list"

definition tick :: "world \<Rightarrow> world" where
  "tick wld = wld\<lparr>step := Suc (step wld)\<rparr>"

definition time_Now :: "os_env \<Rightarrow> world \<Rightarrow> nat \<times> world" where
  "time_Now env wld = (Now env (step wld), tick wld)"

definition file_Stat :: "os_env \<Rightarrow> os_File \<Rightarrow> world \<Rightarrow> oserr option \<times> world" where
  "file_Stat env f wld =
     (if fd f \<in> set (closed wld) then Some ErrClosed
      else if stat_fails env f (step wld) then Some (ErrOS ''stat'')
      else None, tick wld)"

definition file_Close :: "os_env \<Rightarrow> os_File \<Rightarrow> world \<Rightarrow> oserr option \<times> world" where
  "file_Close env f wld =
     (if fd f \<in> set (closed wld) then (Some ErrClosed, tick wld)
      else (close_file env f (step wld), (tick wld)\<lparr>closed := fd f # closed wld\<rparr>))"

definition os_OpenFile ::
  "os_env \<Rightarrow> string \<Rightarrow> open_flags \<Rightarrow> world \<Rightarrow> (oserr + os_File) \<times> world" where
  "os_OpenFile env name flags wld =
     (case open_file env name flags (step wld) of
        Inl e \<Rightarrow> Inl e
      | Inr d \<Rightarrow> Inr (File name d), tick wld)"

text \<open>
  \<open>bufio.Writer.WriteString\<close> and \<open>Flush\<close> on a handle: whether they fail is the
  system's answer.  What reaches the file is not tracked, only the error.
\<close>

definition buf_WriteString :: "os_env \<Rightarrow> os_File \<Rightarrow> string \<Rightarrow> world \<Rightarrow> oserr option \<times> world" where
  "buf_WriteString env f msg wld = (write_string env f (step wld), tick wld)"

definition buf_Flush :: "os_env \<Rightarrow> os_File \<Rightarrow> world \<Rightarrow> oserr option \<times> world" where
  "buf_Flush env f wld = (flush env f (step wld), tick wld)"

definition ctx_Done :: "context \<Rightarrow> world \<Rightarrow> bool" where
  "ctx_Done c wld = done_at c (step wld)"

text \<open>
  \<open>time.Duration(backoff) * time.Millisecond\<close>: a Duration is an int64 of nanoseconds, the
  conversion from uint64 and the product both wrap.
\<close>

definition wrap_int64 :: "int \<Rightarrow> int" where
  "wrap_int64 x = (x + 2 ^ 63) mod 2 ^ 64 - 2 ^ 63"

definition Millisecond :: int where
  "Millisecond = 1000000"

definition duration_ms :: "nat \<Rightarrow> int" where
  "duration_ms b = wrap_int64 (wrap_int64 (int b) * Millisecond)"

definition time_Sleep :: "int \<Rightarrow> world \<Rightarrow> world" where
  "time_Sleep d wld = (tick wld)\<lparr>slept := slept wld @ [d]\<rparr>"

section \<open>Construction\<close>

definition Background :: "context" where
  "Background = Context (\<lambda>_. False)"

definition NewWriter ::
  "os_File option list option \<Rightarrow> Mode option \<Rightarrow> string option \<Rightarrow> nat \<Rightarrow> nat \<Rightarrow> nat \<Rightarrow> Writer" where
  "NewWriter fs m msg maxPool rs bo =
     \<lparr>files = (if fs = None then Some [] else fs), mode = m, message = msg,
      openFilesPool = [], connLastUsed = [], maxConns = maxPool, retries = rs,
      backoff = bo, ctx = Some Background\<rparr>"

definition Dwriter :: "os_env \<Rightarrow> Writer" where
  "Dwriter env =
     NewWriter (Some []) (Some (Mode (Some ''a''))) (Some ''Add text to write'')
       (NumCPU env * 4) 2 100"

definition os_msg :: "oserr \<Rightarrow> string" where
  "os_msg e = (case e of ErrClosed \<Rightarrow> ''file already closed'' | ErrOS m \<Rightarrow> m)"

definition world0 :: world where
  "world0 = \<lparr>step = 0, closed = [], slept = []\<rparr>"

definition calm_env :: os_env where
  "calm_env = \<lparr>NumCPU = 4, Now = (\<lambda>k. k), stat_fails = (\<lambda>_ _. False),
     open_file = (\<lambda>_ _ k. Inr (1000 + k)), write_string = (\<lambda>_ _. None),
     flush = (\<lambda>_ _. None), close_file = (\<lambda>_ _. None)\<rparr>"

definition close_error_env :: os_env where
  "close_error_env = calm_env\<lparr>close_file := (\<lambda>_ _. Some (ErrOS ''input/output error''))\<rparr>"

section \<open>The pool of open files\<close>

text \<open>
  The scan of \<open>connLastUsed.Range\<close> in GetConn: the accumulator is the pair
  \<open>(oldestFile, oldestTime)\<close>, which starts at the empty string and the zero time.
\<close>

definition scan_oldest :: "string \<times> nat \<Rightarrow> string \<times> nat \<Rightarrow> string \<times> nat" where
  "scan_oldest acc kv =
     (if fst acc = '''' \<or> snd kv < snd acc then kv else acc)"

definition find_oldest :: "(string \<times> nat) list \<Rightarrow> string \<times> nat" where
  "find_oldest lu = foldl scan_oldest ('''', 0) lu"

definition evict_oldest :: "os_env \<Rightarrow> Writer \<times> world \<Rightarrow> Writer \<times> world" where
  "evict_oldest env ww =
     (let w = fst ww; wld = snd ww; oldestFile = fst (find_oldest (connLastUsed w)) in
      if oldestFile \<noteq> '''' then
        (case map_of (openFilesPool w) oldestFile of
           Some oldFile \<Rightarrow>
             (w\<lparr>openFilesPool := AList.delete oldestFile (openFilesPool w),
                connLastUsed := AList.delete oldestFile (connLastUsed w)\<rparr>,
              snd (file_Close env oldFile wld))
         | None \<Rightarrow> (w, wld))
      else (w, wld))"

text \<open>
  \<open>GetConn_store\<close> is the second half of GetConn: count the pool, evict if it is full,
  store the new connection.
\<close>

definition GetConn_store ::
  "os_env \<Rightarrow> os_File \<Rightarrow> Writer \<times> world \<Rightarrow> (os_File option \<times> error option) \<times> Writer \<times> world" where
  "GetConn_store env file ww =
     (let count = length (openFilesPool (fst ww));
          ww1 = (if count \<ge> maxConns (fst ww) then evict_oldest env ww else ww);
          w1 = fst ww1;
          tw = time_Now env (snd ww1)
      in ((Some file, None),
          w1\<lparr>openFilesPool := AList.update (fname file) file (openFilesPool w1),
             connLastUsed := AList.update (fname file) (fst tw) (connLastUsed w1)\<rparr>,
          snd tw))"

definition GetConn ::
  "os_env \<Rightarrow> os_File option \<Rightarrow> Writer \<times> world \<Rightarrow> (os_File option \<times> error option) \<times> Writer \<times> world" where
  "GetConn env file ww =
     (let w = fst ww; wld = snd ww in
      case file of
        None \<Rightarrow> ((None, Some NilFilePointer), w, wld)
      | Some f \<Rightarrow>
          (case map_of (openFilesPool w) (fname f) of
             Some fileObj \<Rightarrow>
               (let sw = file_Stat env fileObj wld in
                if fst sw = None then
                  (let tw = time_Now env (snd sw) in
                   ((Some fileObj, None),
                    w\<lparr>connLastUsed := AList.update (fname f) (fst tw) (connLastUsed w)\<rparr>,
                    snd tw))
                else
                  GetConn_store env f
                    (w\<lparr>openFilesPool := AList.delete (fname f) (openFilesPool w),
                       connLastUsed := AList.delete (fname f) (connLastUsed w)\<rparr>,
                     snd sw))
           | None \<Rightarrow> GetConn_store env f (w, wld)))"

definition CheckConnStatus :: "os_env \<Rightarrow> os_File option \<Rightarrow> Writer \<times> world \<Rightarrow> bool \<times> world" where
  "CheckConnStatus env file ww =
     (let w = fst ww; wld = snd ww in
      case file of
        None \<Rightarrow> (False, wld)
      | Some f \<Rightarrow>
          (case map_of (openFilesPool w) (fname f) of
             Some fileObj \<Rightarrow>
               (let sw = file_Stat env fileObj wld in (fst sw = None, snd sw))
           | None \<Rightarrow> (False, wld)))"

text \<open>
  A run of acquisitions one after the other: each GetConn starts where the one before
  it ended.
\<close>

fun acquire_all :: "os_env \<Rightarrow> os_File option list \<Rightarrow> Writer \<times> world \<Rightarrow> Writer \<times> world" where
  "acquire_all env [] ww = ww"
| "acquire_all env (f # fs) ww = acquire_all env fs (snd (GetConn env f ww))"

text \<open>
  CloseAllConns: \<open>filesToClose\<close> is the copy of the pool taken first; the loop visits
  it and collects the close errors in \<open>errSlice\<close>.
\<close>

fun CloseAllConns_loop ::
  "os_env \<Rightarrow> (string \<times> os_File) list \<Rightarrow> (string \<times> oserr) list \<times> Writer \<times> world
   \<Rightarrow> (string \<times> oserr) list \<times> Writer \<times> world" where
  "CloseAllConns_loop env [] st = st"
| "CloseAllConns_loop env ((name, file) # rest) (errSlice, w, wld) =
     (let sw = file_Stat env file wld;
          w1 = w\<lparr>openFilesPool := AList.delete name (openFilesPool w),
                 connLastUsed := AList.delete name (connLastUsed w)\<rparr>
      in if fst sw \<noteq> None then CloseAllConns_loop env rest (errSlice, w1, snd sw)
         else
           (let cw = file_Close env file (snd sw);
                errSlice1 =
                  (case fst cw of
                     None \<Rightarrow> errSlice
                   | Some e \<Rightarrow> if e \<noteq> ErrClosed then errSlice @ [(name, e)] else errSlice)
            in CloseAllConns_loop env rest (errSlice1, w1, snd cw)))"

definition CloseAllConns :: "os_env \<Rightarrow> Writer \<times> world \<Rightarrow> error option \<times> Writer \<times> world" where
  "CloseAllConns env ww =
     (let filesToClose = openFilesPool (fst ww);
          r = CloseAllConns_loop env filesToClose ([], fst ww, snd ww)
      in (if length (fst r) > 0 then Some (MultipleCloseErrors (fst r)) else None, snd r))"

definition ClearAll :: "Writer \<Rightarrow> Writer" where
  "ClearAll w = w\<lparr>openFilesPool := [], connLastUsed := []\<rparr>"

definition ClearFiles :: "Writer \<Rightarrow> Writer" where
  "ClearFiles w = w\<lparr>files := Some []\<rparr>"

definition FactoryReset :: "os_env \<Rightarrow> Writer \<times> world \<Rightarrow> error option \<times> Writer \<times> world" where
  "FactoryReset env ww =
     (let r = CloseAllConns env ww in
      if fst r \<noteq> None then r
      else (None, ClearFiles (ClearAll (fst (snd r))), snd (snd r)))"

section \<open>retry\<close>

text \<open>
  \<open>retry\<close> takes the operation as a function; here the operation acts on a state \<open>'s\<close>
  and \<open>sleep\<close> is what \<open>time.Sleep\<close> does to that state.  \<open>retry_loop\<close> is the
  \<open>for i := tries; i > 0; i--\<close> loop, its first argument the value of \<open>i\<close>.
\<close>

fun retry_loop ::
  "nat \<Rightarrow> nat \<Rightarrow> ('s \<Rightarrow> (error option \<times> 's) exec) \<Rightarrow> (int \<Rightarrow> 's \<Rightarrow> 's) \<Rightarrow> 's
   \<Rightarrow> (error option \<times> 's) exec" where
  "retry_loop 0 bo function sleep s = Return (None, s)"
| "retry_loop (Suc n) bo function sleep s =
     (case function s of
        Panic p \<Rightarrow> Panic p
      | Return (None, s1) \<Rightarrow> Return (None, s1)
      | Return (Some err, s1) \<Rightarrow>
          if Suc n = 1 then Return (Some (ExhaustedRetries err), s1)
          else retry_loop n (if bo < 1000 then bo * 2 else bo) function sleep
                 (sleep (duration_ms bo) s1))"

definition retry ::
  "Writer \<Rightarrow> ('s \<Rightarrow> (error option \<times> 's) exec) \<Rightarrow> (int \<Rightarrow> 's \<Rightarrow> 's) \<Rightarrow> 's
   \<Rightarrow> (error option \<times> 's) exec" where
  "retry w function sleep s =
     (if retries w = 0 then
        (case function s of
           Panic p \<Rightarrow> Panic p
         | Return (Some err, s1) \<Rightarrow> Return (Some err, s1)
         | Return (None, s1) \<Rightarrow> Return (None, s1))
      else retry_loop (retries w) (backoff w) function sleep s)"

text \<open>
  A probe around an operation, to observe a run of \<open>retry\<close>: it records the result of
  every invocation and every duration slept, and leaves the operation as it is.
\<close>

record 's probe =
  calls :: "error option list"
  sleeps :: "int list"
  inner :: 's

definition probe_op ::
  "('s \<Rightarrow> (error option \<times> 's) exec) \<Rightarrow> 's probe \<Rightarrow> (error option \<times> 's probe) exec" where
  "probe_op f p =
     (case f (inner p) of
        Panic x \<Rightarrow> Panic x
      | Return (r, s1) \<Rightarrow> Return (r, p\<lparr>calls := calls p @ [r], inner := s1\<rparr>))"

definition probe_sleep :: "int \<Rightarrow> 's probe \<Rightarrow> 's probe" where
  "probe_sleep d p = p\<lparr>sleeps := sleeps p @ [d]\<rparr>"

definition probe0 :: "unit probe" where
  "probe0 = \<lparr>calls = [], sleeps = [], inner = ()\<rparr>"

definition failing_op :: "unit \<Rightarrow> (error option \<times> unit) exec" where
  "failing_op s = Return (Some NilFilePointer, s)"

text \<open>
  The backoff variable after \<open>i\<close> passes through the loop body, as the source updates it:
  doubled while it is below 1000.
\<close>

fun backoff_after :: "nat \<Rightarrow> nat \<Rightarrow> nat" where
  "backoff_after b 0 = b"
| "backoff_after b (Suc i) = backoff_after (if b < 1000 then b * 2 else b) i"

section \<open>Writing one file\<close>

definition fullWriteCheck :: "Writer option \<Rightarrow> error option" where
  "fullWriteCheck wp =
     (case wp of
        None \<Rightarrow> Some WriterIsNil
      | Some w \<Rightarrow>
          if files w = None then Some FilesIsNil
          else if mode w = None then Some ModeIsNil
          else if message w = None then Some MessageIsNil
          else None)"

definition getFileMode :: "string \<Rightarrow> error + open_flags" where
  "getFileMode modeStr =
     (if modeStr = ''a'' then Inr RDWR_CREATE_APPEND
      else if modeStr = ''w'' then Inr RDWR_CREATE_TRUNC
      else Inl (InvalidMode modeStr))"

definition NewResults :: Results where
  "NewResults = \<lparr>Total = 0, ErrSlice = [], Success = 0, Failure = 0,
     SuccessRate = F64_zero, FailureRate = F64_zero, Info = Map.empty\<rparr>"

text \<open>
  The state a write works on: the writer (its pool changes), the results being
  collected, and the world.
\<close>

type_synonym wstate = "Writer \<times> Results \<times> world"

definition set_info :: "string \<Rightarrow> string \<Rightarrow> Results \<Rightarrow> Results" where
  "set_info k v results = results\<lparr>Info := (Info results)(k \<mapsto> v)\<rparr>"

text \<open>
  \<open>write_and_flush\<close> is the end of writeToFile, from \<open>bufio.NewWriter(file)\<close> on, for
  the handle that is written to.
\<close>

definition write_and_flush ::
  "os_env \<Rightarrow> os_File \<Rightarrow> string \<Rightarrow> wstate \<Rightarrow> (error option \<times> wstate) exec" where
  "write_and_flush env file msg st =
     (let w = fst st; results = fst (snd st); wld = snd (snd st);
          ws = buf_WriteString env file msg wld in
      case fst ws of
        Some e \<Rightarrow>
          Return (Some (WriteFailed (fname file) e),
            (w, set_info (fname file) (os_msg e) results,
             if e \<noteq> ErrClosed then snd (file_Close env file (snd ws)) else snd ws))
      | None \<Rightarrow>
          (let fl = buf_Flush env file (snd ws) in
           case fst fl of
             Some e \<Rightarrow>
               Return (Some (FlushFailed (fname file) e),
                 (w, set_info (fname file) (os_msg e) results,
                  snd (file_Close env file (snd fl))))
           | None \<Rightarrow> Return (None, (w, results, snd fl))))"

definition writeToFile ::
  "os_env \<Rightarrow> os_File option \<Rightarrow> string \<Rightarrow> wstate \<Rightarrow> (error option \<times> wstate) exec" where
  "writeToFile env file msg st =
     (let w = fst st; results = fst (snd st); wld = snd (snd st) in
      case ctx w of
        None \<Rightarrow> Panic NilDereference
      | Some c \<Rightarrow>
          if ctx_Done c wld then Return (Some ContextErr, st)
          else
            (case file of
               None \<Rightarrow>
                 Return (Some NilFilePointer,
                   (w, set_info ''nil_file'' ''received nil file pointer'' results, wld))
             | Some f \<Rightarrow>
                 (case mode w of
                    None \<Rightarrow> Panic NilDereference
                  | Some m \<Rightarrow>
                      (case mode_str m of
                         None \<Rightarrow> Panic NilDereference
                       | Some modeStr \<Rightarrow>
                           (case getFileMode modeStr of
                              Inl err \<Rightarrow>
                                Return (Some err,
                                  (w, set_info (fname f) (''invalid mode: '' @ modeStr) results, wld))
                            | Inr fileMode \<Rightarrow>
                                (let cs = CheckConnStatus env (Some f) (w, wld) in
                                 if \<not> fst cs then
                                   (let op = os_OpenFile env (fname f) fileMode (snd cs) in
                                    case fst op of
                                      Inl e \<Rightarrow>
                                        Return (Some (OpenFailed (fname f) e),
                                          (w, set_info (fname f) (os_msg e) results, snd op))
                                    | Inr newFile \<Rightarrow>
                                        write_and_flush env newFile msg
                                          (w\<lparr>openFilesPool :=
                                               AList.update (fname f) newFile (openFilesPool w)\<rparr>,
                                           results, snd op))
                                 else write_and_flush env f msg (w, results, snd cs)))))))"

definition sleep_state :: "int \<Rightarrow> wstate \<Rightarrow> wstate" where
  "sleep_state d st = (fst st, fst (snd st), time_Sleep d (snd (snd st)))"

definition record_failure :: "error \<Rightarrow> Results \<Rightarrow> Results" where
  "record_failure err results =
     results\<lparr>ErrSlice := ErrSlice results @ [err], Failure := Failure results + 1\<rparr>"

definition record_success :: "Results \<Rightarrow> Results" where
  "record_success results = results\<lparr>Success := Success results + 1\<rparr>"

text \<open>
  The body of the worker's loop in Write, for one file taken from \<open>jobs\<close>:
  \<open>process_job\<close> is the whole body, \<open>write_job\<close> the part after a successful GetConn.
  \<open>Success\<close> and \<open>Failure\<close> are uint64 counters that count files of one slice, so they
  stay far below \<open>2 ^ 64\<close>.
\<close>

definition write_job :: "os_env \<Rightarrow> os_File option \<Rightarrow> wstate \<Rightarrow> wstate exec" where
  "write_job env conn st =
     (case message (fst st) of
        None \<Rightarrow> Panic NilDereference
      | Some msg \<Rightarrow>
          (case retry (fst st) (writeToFile env conn msg) sleep_state st of
             Panic p \<Rightarrow> Panic p
           | Return (Some err, st1) \<Rightarrow>
               Return (fst st1, record_failure err (fst (snd st1)), snd (snd st1))
           | Return (None, st1) \<Rightarrow>
               Return (fst st1, record_success (fst (snd st1)), snd (snd st1))))"

definition process_job :: "os_env \<Rightarrow> os_File option \<Rightarrow> wstate \<Rightarrow> wstate exec" where
  "process_job env file st =
     (let g = GetConn env file (fst st, snd (snd st)) in
      case snd (fst g) of
        Some errConn \<Rightarrow>
          Return (fst (snd g), record_failure errConn (fst (snd st)), snd (snd g))
      | None \<Rightarrow> write_job env (fst (fst g)) (fst (snd g), fst (snd st), snd (snd g)))"

fun worker :: "os_env \<Rightarrow> os_File option list \<Rightarrow> wstate \<Rightarrow> wstate exec" where
  "worker env [] st = Return st"
| "worker env (file # jobs) st =
     (case process_job env file st of
        Panic p \<Rightarrow> Panic p
      | Return st1 \<Rightarrow> worker env jobs st1)"

text \<open>
  The workers share one queue and take one job at a time; they are modelled as taking
  the jobs in queue order, one after the other.  With no worker nothing is taken.
\<close>

definition run_workers :: "os_env \<Rightarrow> int \<Rightarrow> os_File option list \<Rightarrow> wstate \<Rightarrow> wstate exec" where
  "run_workers env maxWorkers jobs st = (if maxWorkers \<le> 0 then Return st else worker env jobs st)"

section \<open>batcher\<close>

text \<open>
  Go's \<open>int\<close> is taken as 64 bits wide: sums and products wrap, \<open>/\<close> truncates towards
  zero.  \<open>slice_of\<close> is \<open>s[start:end]\<close> for an \<open>end\<close> that is at most \<open>len(s)\<close>.
\<close>

definition go_quot :: "int \<Rightarrow> int \<Rightarrow> int" where
  "go_quot a b = sgn a * sgn b * (\<bar>a\<bar> div \<bar>b\<bar>)"

definition slice_of :: "'a list \<Rightarrow> int \<Rightarrow> int \<Rightarrow> 'a list exec" where
  "slice_of s start end =
     (if start < 0 \<or> end < start then Panic SliceBoundsOutOfRange
      else Return (take (nat (end - start)) (drop (nat start) s)))"

definition batch_at :: "'a list \<Rightarrow> int \<Rightarrow> nat \<Rightarrow> 'a list exec" where
  "batch_at fs batchSize i =
     (let numFiles = int (length fs);
          start = wrap_int64 (int i * batchSize);
          end0 = wrap_int64 (start + batchSize);
          end = (if end0 > numFiles then numFiles else end0)
      in slice_of fs start end)"

fun collect :: "'a exec list \<Rightarrow> 'a list exec" where
  "collect [] = Return []"
| "collect (x # xs) =
     (case x of
        Panic p \<Rightarrow> Panic p
      | Return v \<Rightarrow> (case collect xs of Panic p \<Rightarrow> Panic p | Return vs \<Rightarrow> Return (v # vs)))"

definition batcher :: "os_env \<Rightarrow> Writer \<Rightarrow> int \<Rightarrow> os_File option list list exec" where
  "batcher env w batchSize =
     (case files w of
        None \<Rightarrow> Panic NilDereference
      | Some fs \<Rightarrow>
          if batchSize \<le> 0 \<and> NumCPU env = 0 then Panic IntegerDivideByZero
          else
            (let size0 = (if batchSize \<le> 0 then go_quot (int (length fs)) (int (NumCPU env))
                          else batchSize);
                 size = (if batchSize \<le> 0 \<and> size0 = 0 then 1 else size0);
                 numFiles = int (length fs);
                 numBatches = go_quot (wrap_int64 (wrap_int64 (numFiles + size) - 1)) size
             in if numBatches < 0 then Panic MakeSliceLenOutOfRange
                else collect (map (batch_at fs size) [0..<nat numBatches])))"

section \<open>Write\<close>

definition rate :: "nat \<Rightarrow> nat \<Rightarrow> float64" where
  "rate count tot = (if tot > 0 then F64_quot count tot else F64_zero)"

definition Write ::
  "os_env \<Rightarrow> Writer option \<Rightarrow> int \<Rightarrow> world
   \<Rightarrow> ((Results option \<times> error option) \<times> Writer \<times> world) exec" where
  "Write env wp maxWorkers wld =
     (case wp of
        None \<Rightarrow> Panic NilDereference
      | Some w \<Rightarrow>
          (case ctx w of
             None \<Rightarrow> Panic NilDereference
           | Some c \<Rightarrow>
               if ctx_Done c wld then Return ((None, Some ContextErr), w, wld)
               else
                 (case fullWriteCheck (Some w) of
                    Some err \<Rightarrow> Return ((None, Some err), w, wld)
                  | None \<Rightarrow>
                      (case files w of
                         None \<Rightarrow> Panic NilDereference
                       | Some fs \<Rightarrow>
                           if length fs = 0 then Return ((None, Some FilesIsEmpty), w, wld)
                           else
                             (let results = NewResults;
                                  maxWorkers1 = (if maxWorkers \<le> 0 then int (NumCPU env)
                                                 else maxWorkers);
                                  maxWorkers2 = (if maxWorkers1 > int (length fs)
                                                 then int (length fs) else maxWorkers1);
                                  queue = (if length fs > 1000 then
                                             (case batcher env w 0 of
                                                Panic p \<Rightarrow> Panic p
                                              | Return batches \<Rightarrow> Return (concat batches))
                                           else Return fs)
                              in case queue of
                                   Panic p \<Rightarrow> Panic p
                                 | Return jobs \<Rightarrow>
                                     (case run_workers env maxWorkers2 jobs (w, results, wld) of
                                        Panic p \<Rightarrow> Panic p
                                      | Return st \<Rightarrow>
                                          (case files (fst st) of
                                             None \<Rightarrow> Panic NilDereference
                                           | Some fs1 \<Rightarrow>
                                               (let r = fst (snd st); tot = length fs1 in
                                                Return
                                                  ((Some (r\<lparr>Total := tot,
                                                        SuccessRate := rate (Success r) tot,
                                                        FailureRate := rate (Failure r) tot\<rparr>),
                                                    None),
                                                   fst st, snd (snd st))))))))))"

section \<open>Construction from a map\<close>

text \<open>
  A \<open>map[string]interface{}\<close> is a list of entries with distinct keys (\<open>None\<close> is the nil
  map); a value carries its dynamic type.  \<open>VOther\<close> is a value of any other type,
  the nil interface among them.  A type assertion \<open>v.(T)\<close> with one result panics when
  the dynamic type is not \<open>T\<close>, and a key that is absent reads as the nil interface.
\<close>

datatype cfg_value =
    VFiles "os_File option list option"
  | VMode "Mode option"
  | VString "string option"
  | VUint64 nat
  | VOther

fun validate_entries :: "(string \<times> cfg_value) list \<Rightarrow> error option" where
  "validate_entries [] = None"
| "validate_entries ((key, v) # rest) =
     (if key = ''files'' then
        (case v of VFiles _ \<Rightarrow> validate_entries rest | _ \<Rightarrow> Some (NotOfType ''files''))
      else if key = ''mode'' then
        (case v of VMode _ \<Rightarrow> validate_entries rest | _ \<Rightarrow> Some (NotOfType ''mode''))
      else if key = ''message'' then
        (case v of VString _ \<Rightarrow> validate_entries rest | _ \<Rightarrow> Some (NotOfType ''message''))
      else if key = ''retries'' then
        (case v of VUint64 _ \<Rightarrow> validate_entries rest | _ \<Rightarrow> Some (NotOfType ''retries''))
      else if key = ''backoff'' then
        (case v of VUint64 _ \<Rightarrow> validate_entries rest | _ \<Rightarrow> Some (NotOfType ''backoff''))
      else if key = ''maxPool'' then
        (case v of VUint64 _ \<Rightarrow> validate_entries rest | _ \<Rightarrow> Some (NotOfType ''maxPool''))
      else Some (UnknownKey key))"

definition validateMap :: "(string \<times> cfg_value) list option \<Rightarrow> error option" where
  "validateMap config =
     (case config of None \<Rightarrow> Some ConfigIsNil | Some kvs \<Rightarrow> validate_entries kvs)"

definition assert_files :: "string \<Rightarrow> cfg_value option \<Rightarrow> os_File option list option exec" where
  "assert_files key v = (case v of Some (VFiles x) \<Rightarrow> Return x | _ \<Rightarrow> Panic (InterfaceConversion key))"

definition assert_mode :: "string \<Rightarrow> cfg_value option \<Rightarrow> Mode option exec" where
  "assert_mode key v = (case v of Some (VMode x) \<Rightarrow> Return x | _ \<Rightarrow> Panic (InterfaceConversion key))"

definition assert_string :: "string \<Rightarrow> cfg_value option \<Rightarrow> string option exec" where
  "assert_string key v = (case v of Some (VString x) \<Rightarrow> Return x | _ \<Rightarrow> Panic (InterfaceConversion key))"

definition assert_uint64 :: "string \<Rightarrow> cfg_value option \<Rightarrow> nat exec" where
  "assert_uint64 key v = (case v of Some (VUint64 x) \<Rightarrow> Return x | _ \<Rightarrow> Panic (InterfaceConversion key))"

definition NewWriterFromMap ::
  "(string \<times> cfg_value) list option \<Rightarrow> (Writer option \<times> error option) exec" where
  "NewWriterFromMap config =
     (case validateMap config of
        Some err \<Rightarrow> Return (None, Some err)
      | None \<Rightarrow>
          (let m = (case config of None \<Rightarrow> Map.empty | Some kvs \<Rightarrow> map_of kvs) in
           exec_bind (assert_files ''files'' (m ''files'')) (\<lambda>fs.
           exec_bind (assert_mode ''mode'' (m ''mode'')) (\<lambda>md.
           exec_bind (assert_string ''message'' (m ''message'')) (\<lambda>msg.
           exec_bind (assert_uint64 ''retries'' (m ''retries'')) (\<lambda>rs.
           exec_bind (assert_uint64 ''backoff'' (m ''backoff'')) (\<lambda>bo.
           exec_bind (assert_uint64 ''maxPool'' (m ''maxPool'')) (\<lambda>mp.
             Return (Some \<lparr>files = fs, mode = md, message = msg, openFilesPool = [],
                       connLastUsed = [], maxConns = mp, retries = rs, backoff = bo,
                       ctx = Some Background\<rparr>, None)))))))))"

section \<open>Example states\<close>

definition file_a :: os_File where
  "file_a = File ''a.log'' 3"

definition file_b :: os_File where
  "file_b = File ''b.log'' 4"

definition hello_writer :: "nat \<Rightarrow> Writer" where
  "hello_writer maxPool =
     NewWriter (Some [Some file_a, Some file_b]) (Some (Mode (Some ''a'')))
       (Some ''Hello, World!'') maxPool 3 100"

definition pooled_writer :: "os_env \<Rightarrow> Writer \<times> world" where
  "pooled_writer env = acquire_all env [Some file_a, Some file_b] (hello_writer 10, world0)"


text \<open>What a write of one file leaves alone: the two counters and the file list.\<close>

definition tally :: "wstate \<Rightarrow> nat \<times> nat \<times> os_File option list option" where
  "tally st = (Success (fst (snd st)), Failure (fst (snd st)), files (fst st))"


section \<open>Properties of retry\<close>

lemma map_upt_shift: "map g [0..<Suc m] = g 0 # map (\<lambda>i. g (Suc i)) [0..<m]"
  by (simp only: upt_conv_Cons [of 0 "Suc m"] list.map map_Suc_upt [symmetric] map_map comp_def)

lemma probe_op_Return:
  "f (inner p) = Return (r, s1) \<Longrightarrow> probe_op f p = Return (r, p\<lparr>calls := calls p @ [r], inner := s1\<rparr>)"
  by (simp add: probe_op_def)

lemma probe_op_Panic: "f (inner p) = Panic x \<Longrightarrow> probe_op f p = Panic x"
  by (simp add: probe_op_def)

lemma retry_loop_probe_fail:
  assumes fails: "\<forall>s. \<exists>e s'. f s = Return (Some e, s')"
  shows "0 < n \<Longrightarrow> \<exists>es p'. retry_loop n b (probe_op f) probe_sleep p
            = Return (Some (ExhaustedRetries (last es)), p')
          \<and> calls p' = calls p @ map Some es \<and> length es = n
          \<and> sleeps p' = sleeps p @ map (\<lambda>i. duration_ms (backoff_after b i)) [0..<n - 1]"
proof (induction n arbitrary: b p)
  case 0
  then show ?case by simp
next
  case (Suc n)
  from fails obtain e s1 where f: "f (inner p) = Return (Some e, s1)" by blast
  show ?case
  proof (cases "n = 0")
    case True
    with f show ?thesis
      by (intro exI [of _ "[e]"]) (simp add: probe_op_Return)
  next
    case False
    let ?b = "if b < 1000 then b * 2 else b"
    let ?p = "probe_sleep (duration_ms b) (p\<lparr>calls := calls p @ [Some e], inner := s1\<rparr>)"
    from False have "0 < n" by simp
    from Suc.IH [OF this, of ?b ?p] obtain es p' where
      run: "retry_loop n ?b (probe_op f) probe_sleep ?p = Return (Some (ExhaustedRetries (last es)), p')"
      and cs: "calls p' = calls ?p @ map Some es" and len: "length es = n"
      and sl: "sleeps p' = sleeps ?p @ map (\<lambda>i. duration_ms (backoff_after ?b i)) [0..<n - 1]"
      by blast
    from len False have ne: "es \<noteq> []" by auto
    obtain m where m: "n = Suc m" using False by (cases n) auto
    have "retry_loop (Suc n) b (probe_op f) probe_sleep p
            = Return (Some (ExhaustedRetries (last (e # es))), p')"
      using run False ne by (simp add: probe_op_Return [of f p, OF f])
    moreover have "calls p' = calls p @ map Some (e # es)"
      using cs by (simp add: probe_sleep_def)
    moreover have "sleeps p' = sleeps p @ map (\<lambda>i. duration_ms (backoff_after b i)) [0..<Suc n - 1]"
      using sl unfolding m by (simp add: probe_sleep_def map_upt_shift del: upt_Suc)
    ultimately show ?thesis using len
      by (intro exI [of _ "e # es"] exI [of _ p']) simp
  qed
qed


lemma backoff_after_doubling:
  "i = 0 \<or> b * 2 ^ (i - 1) < 1000 \<Longrightarrow> backoff_after b i = b * 2 ^ i"
proof (induction i arbitrary: b)
  case 0
  then show ?case by simp
next
  case (Suc i)
  then have small: "b * 2 ^ i < 1000" by simp
  have "b \<le> b * 2 ^ i" by simp
  with small have b: "b < 1000" by linarith
  have "i = 0 \<or> (b * 2) * 2 ^ (i - 1) < 1000"
  proof (cases i)
    case 0
    then show ?thesis by simp
  next
    case (Suc j)
    with small show ?thesis by (simp add: mult.assoc)
  qed
  from Suc.IH [OF this] b show ?case by (simp add: mult.assoc)
qed

lemma backoff_after_bound: "backoff_after b i \<le> max b 1998"
proof (induction i arbitrary: b)
  case 0
  then show ?case by simp
next
  case (Suc i)
  show ?case
  proof (cases "b < 1000")
    case True
    have "backoff_after (b * 2) i \<le> max (b * 2) 1998" by (rule Suc.IH)
    with True show ?thesis by simp
  next
    case False
    with Suc.IH [of b] show ?thesis by simp
  qed
qed

lemma duration_ms_exact: "b \<le> 9223372036854 \<Longrightarrow> duration_ms b = int b * Millisecond"
  by (simp add: duration_ms_def wrap_int64_def Millisecond_def)



text \<open>
  The delays of a run in which every attempt fails: the delay slept between attempt \<open>i\<close>
  and attempt \<open>i + 1\<close> is the current backoff value in milliseconds.  That value starts at
  the base and is doubled after a sleep only while it is below 1000: it is
  \<open>base * 2 ^ i\<close> as long as \<open>i = 0\<close> or \<open>base * 2 ^ (i - 1) < 1000\<close>, and it never
  exceeds \<open>max base 1998\<close>.  Up to a base of 9223372036854 the int64 duration does not wrap.
\<close>

lemma retry_backoff_delays:
  assumes "0 < retries w" and "\<forall>s. \<exists>e s'. f s = Return (Some e, s')"
  shows "(\<exists>r p'. retry w (probe_op f) probe_sleep p = Return (r, p')
            \<and> sleeps p' = sleeps p @
                map (\<lambda>i. duration_ms (backoff_after (backoff w) i)) [0..<retries w - 1])
         \<and> (\<forall>i. i = 0 \<or> backoff w * 2 ^ (i - 1) < 1000 \<longrightarrow>
                backoff_after (backoff w) i = backoff w * 2 ^ i)
         \<and> (\<forall>i. backoff_after (backoff w) i \<le> max (backoff w) 1998)
         \<and> (backoff w \<le> 9223372036854 \<longrightarrow>
              (\<forall>i. duration_ms (backoff_after (backoff w) i)
                     = int (backoff_after (backoff w) i) * Millisecond))"
proof (intro conjI allI impI)
  from assms(1) have unfold: "retry w (probe_op f) probe_sleep p
      = retry_loop (retries w) (backoff w) (probe_op f) probe_sleep p"
    by (simp add: retry_def)
  from retry_loop_probe_fail [OF assms(2) assms(1), of "backoff w" p] obtain es p' where
    "retry_loop (retries w) (backoff w) (probe_op f) probe_sleep p
       = Return (Some (ExhaustedRetries (last es)), p')"
    "sleeps p' = sleeps p @
       map (\<lambda>i. duration_ms (backoff_after (backoff w) i)) [0..<retries w - 1]"
    by blast
  with unfold show "\<exists>r p'. retry w (probe_op f) probe_sleep p = Return (r, p')
            \<and> sleeps p' = sleeps p @
                map (\<lambda>i. duration_ms (backoff_after (backoff w) i)) [0..<retries w - 1]"
    by (intro exI [of _ "Some (ExhaustedRetries (last es))"] exI [of _ p']) simp
next
  fix i
  assume "i = 0 \<or> backoff w * 2 ^ (i - 1) < 1000"
  then show "backoff_after (backoff w) i = backoff w * 2 ^ i"
    by (rule backoff_after_doubling)
next
  fix i
  show "backoff_after (backoff w) i \<le> max (backoff w) 1998"
    by (rule backoff_after_bound)
next
  fix i
  assume "backoff w \<le> 9223372036854"
  with backoff_after_bound [of "backoff w" i]
  have "backoff_after (backoff w) i \<le> 9223372036854" by simp
  then show "duration_ms (backoff_after (backoff w) i)
               = int (backoff_after (backoff w) i) * Millisecond"
    by (rule duration_ms_exact)
qed

lemma retry_backoff_delays_example:
  "(\<exists>r p'. retry (NewWriter None None None 0 6 100) (probe_op failing_op) probe_sleep probe0
              = Return (r, p')
          \<and> sleeps p' = [100000000, 200000000, 400000000, 800000000, 1600000000])
   \<and> backoff_after 100 3 = 100 * 2 ^ 3
   \<and> backoff_after 100 7 \<le> 1998
   \<and> duration_ms (backoff_after 100 7) = int (backoff_after 100 7) * Millisecond"
proof -
  let ?w = "NewWriter None None None 0 6 100"
  have fails: "\<forall>s. \<exists>e s'. failing_op s = Return (Some e, s')"
    by (simp add: failing_op_def)
  have pos: "0 < retries ?w"
    by (simp add: NewWriter_def)
  have cfg: "backoff ?w = 100" "retries ?w - 1 = 5"
    by (simp_all add: NewWriter_def)
  have vals: "map (\<lambda>i. duration_ms (backoff_after 100 i)) [0..<5]
                = [100000000, 200000000, 400000000, 800000000, 1600000000]"
    by code_simp
  note th = retry_backoff_delays [OF pos fails, of probe0, unfolded cfg vals]
  from th have a: "\<exists>r p'. retry ?w (probe_op failing_op) probe_sleep probe0 = Return (r, p')
          \<and> sleeps p' = [100000000, 200000000, 400000000, 800000000, 1600000000]"
    by (simp add: probe0_def)
  from th have "(3 = (0::nat) \<or> (100::nat) * 2 ^ (3 - 1) < 1000) \<longrightarrow> backoff_after 100 3 = 100 * 2 ^ 3"
    by (elim conjE allE [of _ 3]) assumption
  then have b: "backoff_after 100 3 = 100 * 2 ^ 3" by simp
  from th have "backoff_after 100 7 \<le> max 100 1998"
    by (elim conjE allE [of _ 7]) assumption
  then have c: "backoff_after 100 7 \<le> 1998" by simp
  from th have "(100::nat) \<le> 9223372036854 \<longrightarrow>
      (\<forall>i. duration_ms (backoff_after 100 i) = int (backoff_after 100 i) * Millisecond)"
    by (elim conjE) assumption
  then have d: "duration_ms (backoff_after 100 7) = int (backoff_after 100 7) * Millisecond"
    by simp
  from a b c d show ?thesis by (intro conjI)
qed

text \<open>
  C4.  The specification has the delay after attempt \<open>i\<close> equal to \<open>min (base * 2 ^ i) 1000\<close>
  milliseconds, so that no delay exceeds 1000 ms; the benchmark notes of the repository
  say the same ("base 100ms, cap 1000ms").  The guard \<open>if backoff < 1000\<close> stops the
  doubling, it does not cap the value: with the base 100 and six failing attempts the
  delays are 100, 200, 400, 800 and 1600 ms.
\<close>

theorem retry_backoff_exceeds_cap:
  "retry (NewWriter None None None 0 6 100) (probe_op failing_op) probe_sleep probe0
     = Return (Some (ExhaustedRetries NilFilePointer),
         \<lparr>calls = replicate 6 (Some NilFilePointer),
          sleeps = [100 * Millisecond, 200 * Millisecond, 400 * Millisecond,
                    800 * Millisecond, 1600 * Millisecond],
          inner = ()\<rparr>)
   \<and> 1600 * Millisecond \<noteq> int (min (100 * 2 ^ 4) 1000) * Millisecond"
  by code_simp

section \<open>Properties of Write: preconditions\<close>

lemma Write_error_iff_precondition:
  assumes "Write env (Some w) maxWorkers wld = Return ((r, e), w', wld')"
  shows "(e \<noteq> None \<longleftrightarrow>
            (\<exists>c. ctx w = Some c \<and> ctx_Done c wld) \<or> files w = None \<or> mode w = None
            \<or> message w = None \<or> files w = Some [])
         \<and> (e \<noteq> None \<longrightarrow> r = None \<and> w' = w \<and> wld' = wld)
         \<and> (e = None \<longrightarrow> r \<noteq> None)"
  using assms
  by (auto simp: Write_def fullWriteCheck_def Let_def
      split: option.splits if_splits exec.splits)

text \<open>
  C1.  The specification has Write return an error for a nil writer.  Write reads \<open>w.ctx\<close> before
  it calls fullWriteCheck, so on a nil receiver it panics with a nil dereference and the
  \<open>w == nil\<close> test of fullWriteCheck is never reached.  (For a writer that is not nil and
  a run that returns, the error return is exactly the precondition violations:
  \<open>Write_error_iff_precondition\<close>.)
\<close>

theorem Write_nil_writer_panics:
  "Write env None maxWorkers wld = Panic NilDereference"
  by (simp add: Write_def)

section \<open>Properties of NewWriterFromMap\<close>

lemma validate_entries_unknown_key:
  assumes "(k, v) \<in> set kvs"
    and "k \<noteq> ''files''" "k \<noteq> ''mode''" "k \<noteq> ''message''"
    and "k \<noteq> ''retries''" "k \<noteq> ''backoff''" "k \<noteq> ''maxPool''"
  shows "validate_entries kvs \<noteq> None"
  using assms(1)
proof (induction kvs)
  case Nil
  then show ?case by simp
next
  case (Cons a kvs)
  obtain key u where a: "a = (key, u)" by (cases a)
  show ?case
  proof (cases "(k, v) = a")
    case True
    with a have "key = k" by simp
    with a assms(2-7) show ?thesis by simp
  next
    case False
    with Cons.prems have "(k, v) \<in> set kvs" by simp
    then have "validate_entries kvs \<noteq> None" by (rule Cons.IH)
    then show ?thesis
      unfolding a validate_entries.simps by (cases u) (simp_all del: validate_entries.simps)
  qed
qed

lemma NewWriterFromMap_invalid_is_error:
  "validateMap config = Some err \<Longrightarrow> NewWriterFromMap config = Return (None, Some err)"
  by (simp add: NewWriterFromMap_def)

lemma NewWriterFromMap_complete:
  "NewWriterFromMap (Some [(''files'', VFiles fs), (''mode'', VMode md), (''message'', VString msg),
        (''retries'', VUint64 rs), (''backoff'', VUint64 bo), (''maxPool'', VUint64 mp)])
     = Return (Some \<lparr>files = fs, mode = md, message = msg, openFilesPool = [],
                       connLastUsed = [], maxConns = mp, retries = rs, backoff = bo,
                       ctx = Some Background\<rparr>, None)"
  by (simp add: NewWriterFromMap_def validateMap_def assert_files_def assert_mode_def
      assert_string_def assert_uint64_def exec_bind_def)

text \<open>
  C6.  The specification has a missing required key yield a construction error.  validateMap
  only looks at the keys that are present, so a map that lacks a key passes it, and the
  type assertion on the absent key in NewWriterFromMap panics.  (A map with an unknown
  key, and every map validateMap rejects, yields an error, and a complete map yields the
  writer: the three lemmas above.)  The fields of the struct literal are evaluated in the order
  they are written, so the first absent key among files, mode, message, retries,
  backoff, maxPool is the one named by the panic.
\<close>

theorem NewWriterFromMap_missing_key_panics:
  "NewWriterFromMap (Some []) = Panic (InterfaceConversion ''files'')
   \<and> NewWriterFromMap (Some [(''files'', VFiles (Some [])), (''mode'', VMode (Some (Mode (Some ''a'')))),
        (''message'', VString (Some ''hello'')), (''retries'', VUint64 3), (''backoff'', VUint64 100)])
     = Panic (InterfaceConversion ''maxPool'')"
  by (simp add: NewWriterFromMap_def validateMap_def assert_files_def assert_mode_def
      assert_string_def assert_uint64_def exec_bind_def)

section \<open>Properties of GetConn\<close>



section \<open>Properties of FactoryReset\<close>

lemma closed_tick [simp]: "closed (tick wld) = closed wld"
  by (simp add: tick_def)

lemma closed_file_Stat [simp]: "closed (snd (file_Stat env f wld)) = closed wld"
  by (simp add: file_Stat_def)

lemma closed_file_Close:
  "set (closed (snd (file_Close env f wld))) = insert (fd f) (set (closed wld))"
  by (auto simp: file_Close_def)

lemma fst_file_Close:
  "fst (file_Close env f wld) = Some ErrClosed
   \<or> fst (file_Close env f wld) = close_file env f (step wld)"
  by (simp add: file_Close_def)

lemma filter_delete_keys:
  "filter (\<lambda>p. fst p \<notin> fst ` set xs) (AList.delete name al)
     = filter (\<lambda>p. fst p \<noteq> name \<and> fst p \<notin> fst ` set xs) al"
  unfolding AList.delete_eq by (induction al) auto

lemma CloseAllConns_loop_state:
  "CloseAllConns_loop env xs (es, w, wld) = (es', w', wld') \<Longrightarrow>
     openFilesPool w' = filter (\<lambda>p. fst p \<notin> fst ` set xs) (openFilesPool w)
     \<and> connLastUsed w' = filter (\<lambda>p. fst p \<notin> fst ` set xs) (connLastUsed w)
     \<and> files w' = files w"
proof (induction xs arbitrary: es w wld)
  case Nil
  then show ?case by simp
next
  case (Cons a xs)
  obtain name f where a: "a = (name, f)" by (cases a)
  define w1 where "w1 = w\<lparr>openFilesPool := AList.delete name (openFilesPool w),
                 connLastUsed := AList.delete name (connLastUsed w)\<rparr>"
  from Cons.prems obtain es1 wld1 where
    "CloseAllConns_loop env xs (es1, w1, wld1) = (es', w', wld')"
    unfolding a w1_def by (simp add: Let_def split: if_splits)
  from Cons.IH [OF this] have
    "openFilesPool w' = filter (\<lambda>p. fst p \<notin> fst ` set xs) (openFilesPool w1)"
    "connLastUsed w' = filter (\<lambda>p. fst p \<notin> fst ` set xs) (connLastUsed w1)"
    "files w' = files w1"
    by simp_all
  then show ?case by (simp add: w1_def a filter_delete_keys)
qed

lemma CloseAllConns_loop_tolerant:
  assumes "\<forall>f k. close_file env f k = None \<or> close_file env f k = Some ErrClosed"
  shows "fst (CloseAllConns_loop env xs (es, w, wld)) = es"
proof (induction xs arbitrary: es w wld)
  case Nil
  then show ?case by simp
next
  case (Cons a xs)
  obtain name f where a: "a = (name, f)" by (cases a)
  let ?wld1 = "snd (file_Stat env f wld)"
  from assms fst_file_Close [of env f ?wld1]
  have "fst (file_Close env f ?wld1) = None \<or> fst (file_Close env f ?wld1) = Some ErrClosed"
    by metis
  then show ?case
    unfolding a by (auto simp: Let_def Cons.IH)
qed

lemma CloseAllConns_loop_closed:
  assumes "\<forall>f k. \<not> stat_fails env f k"
  shows "set (closed wld) \<union> fd ` snd ` set xs
           \<subseteq> set (closed (snd (snd (CloseAllConns_loop env xs (es, w, wld)))))"
proof (induction xs arbitrary: es w wld)
  case Nil
  then show ?case by simp
next
  case (Cons a xs)
  obtain name f where a: "a = (name, f)" by (cases a)
  define w1 where "w1 = w\<lparr>openFilesPool := AList.delete name (openFilesPool w),
                 connLastUsed := AList.delete name (connLastUsed w)\<rparr>"
  show ?case
  proof (cases "fst (file_Stat env f wld) = None")
    case True
    let ?cw = "file_Close env f (snd (file_Stat env f wld))"
    define es1 where "es1 = (case fst ?cw of None \<Rightarrow> es
        | Some e \<Rightarrow> if e \<noteq> ErrClosed then es @ [(name, e)] else es)"
    have cl: "insert (fd f) (set (closed wld)) \<subseteq> set (closed (snd ?cw))"
      by (simp add: closed_file_Close)
    from True have step: "CloseAllConns_loop env (a # xs) (es, w, wld)
      = CloseAllConns_loop env xs (es1, w1, snd ?cw)"
      unfolding a es1_def w1_def by (simp add: Let_def)
    from Cons.IH [of "snd ?cw" es1 w1] cl
    have "set (closed wld) \<union> fd ` snd ` set (a # xs)
        \<subseteq> set (closed (snd (snd (CloseAllConns_loop env xs (es1, w1, snd ?cw)))))"
      by (auto simp: a)
    then show ?thesis by (simp only: step)
  next
    case False
    let ?wld2 = "snd (file_Stat env f wld)"
    from False assms have "fd f \<in> set (closed wld)"
      by (simp add: file_Stat_def split: if_splits)
    then have cl: "insert (fd f) (set (closed wld)) \<subseteq> set (closed ?wld2)"
      by simp
    from False have step: "CloseAllConns_loop env (a # xs) (es, w, wld)
      = CloseAllConns_loop env xs (es, w1, ?wld2)"
      unfolding a w1_def by (simp add: Let_def)
    from Cons.IH [of ?wld2 es w1] cl
    have "set (closed wld) \<union> fd ` snd ` set (a # xs)
        \<subseteq> set (closed (snd (snd (CloseAllConns_loop env xs (es, w1, ?wld2)))))"
      by (auto simp: a)
    then show ?thesis by (simp only: step)
  qed
qed

text \<open>
  C9, as the code has it.  After FactoryReset returns, with an error or without, the pool
  is empty: CloseAllConns has visited every pooled handle, closed it unless Stat already
  failed on it, and removed it; a handle that is already closed is not an error.  When
  FactoryReset returns nil, the last-used index and the file list are empty too.  When
  it returns an error, which takes a Close that fails with something other than "already
  closed", ClearAll and ClearFiles are not run: the file list is unchanged and the
  last-used index has only lost the pooled names.
\<close>

theorem FactoryReset_teardown:
  assumes "FactoryReset env (w, wld) = (err, w', wld')"
  shows "openFilesPool w' = []
     \<and> (err = None \<longrightarrow> connLastUsed w' = [] \<and> files w' = Some [])
     \<and> (err \<noteq> None \<longrightarrow> files w' = files w
           \<and> connLastUsed w'
               = filter (\<lambda>p. fst p \<notin> fst ` set (openFilesPool w)) (connLastUsed w))
     \<and> ((\<forall>f k. close_file env f k = None \<or> close_file env f k = Some ErrClosed)
           \<longrightarrow> err = None)
     \<and> ((\<forall>f k. \<not> stat_fails env f k)
           \<longrightarrow> (\<forall>p\<in>set (openFilesPool w). fd (snd p) \<in> set (closed wld')))"
proof -
  obtain es w1 wld1 where loop:
    "CloseAllConns_loop env (openFilesPool w) ([], w, wld) = (es, w1, wld1)"
    by (cases "CloseAllConns_loop env (openFilesPool w) ([], w, wld)") auto
  from CloseAllConns_loop_state [OF loop] have
    pool1: "openFilesPool w1 = []"
    and lu1: "connLastUsed w1 = filter (\<lambda>p. fst p \<notin> fst ` set (openFilesPool w)) (connLastUsed w)"
    and files1: "files w1 = files w"
    by (simp_all add: filter_empty_conv)
  have close: "CloseAllConns env (w, wld)
      = (if length es > 0 then Some (MultipleCloseErrors es) else None, w1, wld1)"
    by (simp add: CloseAllConns_def Let_def loop)
  have wld': "wld' = wld1"
    using assms by (simp add: FactoryReset_def close Let_def split: if_splits)
  have 1: "openFilesPool w' = []"
    using assms pool1
    by (auto simp: FactoryReset_def close Let_def ClearAll_def ClearFiles_def split: if_splits)
  have 2: "err = None \<longrightarrow> connLastUsed w' = [] \<and> files w' = Some []"
    using assms
    by (auto simp: FactoryReset_def close Let_def ClearAll_def ClearFiles_def split: if_splits)
  have 3: "err \<noteq> None \<longrightarrow> files w' = files w
           \<and> connLastUsed w'
               = filter (\<lambda>p. fst p \<notin> fst ` set (openFilesPool w)) (connLastUsed w)"
    using assms lu1 files1
    by (auto simp: FactoryReset_def close Let_def split: if_splits)
  have 4: "err = None"
    if "\<forall>f k. close_file env f k = None \<or> close_file env f k = Some ErrClosed"
  proof -
    from CloseAllConns_loop_tolerant [OF that, of "openFilesPool w" "[]" w wld] loop
    have "es = []" by simp
    with assms show ?thesis
      by (simp add: FactoryReset_def close Let_def)
  qed
  have 5: "\<forall>p\<in>set (openFilesPool w). fd (snd p) \<in> set (closed wld')"
    if "\<forall>f k. \<not> stat_fails env f k"
    using CloseAllConns_loop_closed [OF that, of wld "openFilesPool w" "[]" w] loop wld'
    by auto
  from 1 2 3 4 5 show ?thesis by blast
qed

theorem FactoryReset_teardown_witness:
  "openFilesPool (fst (snd (FactoryReset calm_env (pooled_writer calm_env)))) = []
   \<and> fst (FactoryReset calm_env (pooled_writer calm_env)) = None
   \<and> connLastUsed (fst (snd (FactoryReset calm_env (pooled_writer calm_env)))) = []
   \<and> files (fst (snd (FactoryReset calm_env (pooled_writer calm_env)))) = Some []
   \<and> fd file_a \<in> set (closed (snd (snd (FactoryReset calm_env (pooled_writer calm_env)))))
   \<and> openFilesPool (fst (snd (FactoryReset close_error_env (pooled_writer close_error_env)))) = []
   \<and> fst (FactoryReset close_error_env (pooled_writer close_error_env)) \<noteq> None
   \<and> files (fst (snd (FactoryReset close_error_env (pooled_writer close_error_env))))
       = Some [Some file_a, Some file_b]"
proof -
  let ?r = "FactoryReset calm_env (pooled_writer calm_env)"
  let ?e = "FactoryReset close_error_env (pooled_writer close_error_env)"
  have run: "FactoryReset calm_env (fst (pooled_writer calm_env), snd (pooled_writer calm_env))
      = (fst ?r, fst (snd ?r), snd (snd ?r))"
    by simp
  have rune: "FactoryReset close_error_env
        (fst (pooled_writer close_error_env), snd (pooled_writer close_error_env))
      = (fst ?e, fst (snd ?e), snd (snd ?e))"
    by simp
  have calm: "\<forall>f k. close_file calm_env f k = None \<or> close_file calm_env f k = Some ErrClosed"
    and stat: "\<forall>f k. \<not> stat_fails calm_env f k"
    by (simp_all add: calm_env_def)
  have pool: "(''a.log'', file_a) \<in> set (openFilesPool (fst (pooled_writer calm_env)))"
    by code_simp
  have err: "fst ?e \<noteq> None"
    by code_simp
  have fs: "files (fst (pooled_writer close_error_env)) = Some [Some file_a, Some file_b]"
    by code_simp
  from FactoryReset_teardown [OF run] calm stat pool
  have a: "openFilesPool (fst (snd ?r)) = []" "fst ?r = None"
    "connLastUsed (fst (snd ?r)) = []" "files (fst (snd ?r)) = Some []"
    "fd file_a \<in> set (closed (snd (snd ?r)))"
    by force+
  from FactoryReset_teardown [OF rune] err fs
  have b: "openFilesPool (fst (snd ?e)) = []"
    "files (fst (snd ?e)) = Some [Some file_a, Some file_b]"
    by simp_all
  from a b err show ?thesis by simp
qed

theorem FactoryReset_keeps_files_counterexample:
  "fst (FactoryReset close_error_env (pooled_writer close_error_env))
     = Some (MultipleCloseErrors [(''a.log'', ErrOS ''input/output error''),
                                  (''b.log'', ErrOS ''input/output error'')])
   \<and> files (fst (snd (FactoryReset close_error_env (pooled_writer close_error_env))))
     = Some [Some file_a, Some file_b]
   \<and> Some [Some file_a, Some file_b] \<noteq> Some []"
  by code_simp

section \<open>Properties of the pool\<close>






lemma closed_time_Now [simp]: "closed (snd (time_Now env wld)) = closed wld"
  by (simp add: time_Now_def)









section \<open>Properties of batcher\<close>

lemma wrap_int64_id: "- (2 ^ 63) \<le> x \<Longrightarrow> x < 2 ^ 63 \<Longrightarrow> wrap_int64 x = x"
  by (simp add: wrap_int64_def)

lemma go_quot_nat: "go_quot (int a) (int b) = int (a div b)"
  by (simp add: go_quot_def zdiv_int sgn_if)

lemma collect_Return:
  "(\<And>x. x \<in> set xs \<Longrightarrow> f x = Return (g x)) \<Longrightarrow> collect (map f xs) = Return (map g xs)"
  by (induction xs) simp_all

lemma ceil_div_cover:
  fixes n s :: nat
  assumes "0 < s"
  shows "n \<le> ((n + s - 1) div s) * s"
proof -
  let ?m = "n + s - 1"
  have "?m = (?m div s) * s + ?m mod s" by simp
  moreover have "?m mod s < s" using assms by simp
  ultimately have "?m < (?m div s) * s + s" by linarith
  with assms show ?thesis by linarith
qed

lemma ceil_div_last:
  fixes n s :: nat
  assumes "0 < s" and "0 < n"
  shows "0 < (n + s - 1) div s" and "((n + s - 1) div s - 1) * s < n"
proof -
  let ?m = "n + s - 1"
  from assms have "s \<le> ?m" by simp
  with assms(1) show pos: "0 < ?m div s"
    by (simp add: div_greater_zero_iff)
  have "(?m div s) * s \<le> ?m" by simp
  moreover from pos have "(?m div s - 1) * s + s = (?m div s) * s"
    by (cases "?m div s") simp_all
  ultimately show "(?m div s - 1) * s < n" using assms by linarith
qed

lemma concat_chunks_take:
  "concat (map (\<lambda>i. take s (drop (i * s) fs)) [0..<k]) = take (k * s) fs"
proof (induction k)
  case 0
  then show ?case by simp
next
  case (Suc k)
  have "take (k * s + s) fs = take (k * s) fs @ take s (drop (k * s) fs)"
    by (rule take_add)
  with Suc show ?case by (simp add: add.commute)
qed

lemma batch_at_chunk:
  assumes "0 < s" and "i * s < length fs" and "length fs < 2 ^ 62" and "s < 2 ^ 62"
  shows "batch_at fs (int s) i = Return (take s (drop (i * s) fs))"
proof -
  define k where "k = i * s"
  define n where "n = length fs"
  from assms(2,3) have k: "k < 2 ^ 62" and kn: "k < n" unfolding k_def n_def by linarith+
  have prod: "int i * int s = int k" by (simp add: k_def)
  from k have start: "wrap_int64 (int k) = int k"
    by (intro wrap_int64_id) simp_all
  from k assms(4) have end0: "wrap_int64 (int k + int s) = int k + int s"
    by (intro wrap_int64_id) simp_all
  have unfold: "batch_at fs (int s) i
      = slice_of fs (int k) (if int k + int s > int n then int n else int k + int s)"
    by (simp only: batch_at_def Let_def prod start end0 n_def)
  have "batch_at fs (int s) i = Return (take s (drop k fs))"
  proof (cases "k + s \<le> n")
    case True
    then have "batch_at fs (int s) i = slice_of fs (int k) (int k + int s)"
      unfolding unfold by simp
    then show ?thesis by (simp add: slice_of_def)
  next
    case False
    then have "batch_at fs (int s) i = slice_of fs (int k) (int n)"
      unfolding unfold by simp
    also from kn have "\<dots> = Return (take (n - k) (drop k fs))"
      by (simp add: slice_of_def nat_diff_distrib')
    also from False have "take (n - k) (drop k fs) = take s (drop k fs)"
      by (simp add: n_def)
    finally show ?thesis .
  qed
  then show ?thesis by (simp only: k_def)
qed


lemma batcher_chunks:
  assumes fs: "files w = Some fs" and ne: "fs \<noteq> []" and cpu: "0 < NumCPU env"
    and len: "length fs < 2 ^ 62" and bs: "batchSize < 2 ^ 62"
    and s: "s = (if batchSize \<le> 0 then max 1 (length fs div NumCPU env) else nat batchSize)"
  shows "batcher env w batchSize
           = Return (map (\<lambda>i. take s (drop (i * s) fs)) [0..<(length fs + s - 1) div s])"
    and "0 < s"
proof -
  define n where "n = length fs"
  define nb where "nb = (n + s - 1) div s"
  from ne have npos: "0 < n" by (simp add: n_def)
  from len have n62: "n < 2 ^ 62" by (simp add: n_def)
  show spos: "0 < s" using s by (simp split: if_splits)
  have s62: "s < 2 ^ 62"
  proof (cases "batchSize \<le> 0")
    case True
    have "length fs div NumCPU env < 2 ^ 62"
      by (rule le_less_trans [OF div_le_dividend len])
    with True s show ?thesis by (simp add: max_def)
  next
    case False
    with s bs show ?thesis by simp
  qed
  have size: "(if batchSize \<le> 0 \<and>
                 (if batchSize \<le> 0 then go_quot (int (length fs)) (int (NumCPU env))
                  else batchSize) = 0
               then 1
               else (if batchSize \<le> 0 then go_quot (int (length fs)) (int (NumCPU env))
                     else batchSize))
              = int s"
    using s by (auto simp: go_quot_nat max_def)
  from n62 s62 have "wrap_int64 (int n + int s) = int n + int s"
    by (intro wrap_int64_id) simp_all
  moreover from n62 s62 spos have "wrap_int64 (int n + int s - 1) = int n + int s - 1"
    by (intro wrap_int64_id) simp_all
  moreover from spos have "int n + int s - 1 = int (n + s - 1)" by simp
  ultimately have "go_quot (wrap_int64 (wrap_int64 (int n + int s) - 1)) (int s) = int nb"
    by (simp only: go_quot_nat nb_def)
  then have num: "go_quot (wrap_int64 (wrap_int64 (int (length fs) + int s) - 1)) (int s) = int nb"
    by (simp only: n_def)
  have chunk: "batch_at fs (int s) i = Return (take s (drop (i * s) fs))" if "i \<in> set [0..<nb]" for i
  proof -
    from that have "i \<le> nb - 1" by simp
    then have "i * s \<le> (nb - 1) * s" by (rule mult_le_mono1)
    also from ceil_div_last(2) [OF spos npos] have "(nb - 1) * s < n" by (simp add: nb_def)
    finally have "i * s < length fs" by (simp add: n_def)
    from batch_at_chunk [OF spos this len s62] show ?thesis .
  qed
  have "batcher env w batchSize
      = (if batchSize \<le> 0 \<and> NumCPU env = 0 then Panic IntegerDivideByZero
         else if int nb < 0 then Panic MakeSliceLenOutOfRange
         else collect (map (batch_at fs (int s)) [0..<nat (int nb)]))"
    by (simp only: batcher_def Let_def fs option.case size num)
  with cpu have "batcher env w batchSize
      = collect (map (batch_at fs (int s)) [0..<nb])"
    by simp
  also have "\<dots> = Return (map (\<lambda>i. take s (drop (i * s) fs)) [0..<nb])"
    using chunk by (rule collect_Return)
  finally show "batcher env w batchSize
           = Return (map (\<lambda>i. take s (drop (i * s) fs)) [0..<(length fs + s - 1) div s])"
    by (simp only: nb_def n_def)
qed




section \<open>Properties of Write: the counts\<close>

lemma retry_loop_preserves:
  assumes op: "\<And>s r s'. P s \<Longrightarrow> f s = Return (r, s') \<Longrightarrow> P s'"
    and sl: "\<And>d s. P s \<Longrightarrow> P (sl d s)"
  shows "P s \<Longrightarrow> retry_loop n b f sl s = Return (r, s') \<Longrightarrow> P s'"
proof (induction n arbitrary: b s)
  case 0
  then show ?case by simp
next
  case (Suc n)
  show ?case
  proof (cases "f s")
    case (Panic x)
    with Suc.prems(2) show ?thesis by simp
  next
    case (Return rs)
    obtain r1 s1 where rs: "rs = (r1, s1)" by (cases rs)
    with Return have fs: "f s = Return (r1, s1)" by simp
    from op [OF Suc.prems(1) fs] have p1: "P s1" .
    show ?thesis
    proof (cases r1)
      case None
      with fs Suc.prems(2) have "s' = s1" by simp
      with p1 show ?thesis by simp
    next
      case (Some e)
      show ?thesis
      proof (cases "n = 0")
        case True
        with fs Some Suc.prems(2) have "s' = s1" by simp
        with p1 show ?thesis by simp
      next
        case False
        with fs Some Suc.prems(2)
        have "retry_loop n (if b < 1000 then b * 2 else b) f sl (sl (duration_ms b) s1)
            = Return (r, s')"
          by simp
        from Suc.IH [OF sl [OF p1] this] show ?thesis .
      qed
    qed
  qed
qed

lemma retry_preserves:
  assumes op: "\<And>s r s'. P s \<Longrightarrow> f s = Return (r, s') \<Longrightarrow> P s'"
    and sl: "\<And>d s. P s \<Longrightarrow> P (sl d s)"
    and start: "P s" and run: "retry w f sl s = Return (r, s')"
  shows "P s'"
proof (cases "retries w = 0")
  case True
  show ?thesis
  proof (cases "f s")
    case (Panic x)
    with run True show ?thesis by (simp add: retry_def)
  next
    case (Return rs)
    obtain r1 s1 where "rs = (r1, s1)" by (cases rs)
    with Return have fs: "f s = Return (r1, s1)" by simp
    with run True have "s' = s1" by (cases r1) (simp_all add: retry_def)
    with op [OF start fs] show ?thesis by simp
  qed
next
  case False
  with run have "retry_loop (retries w) (backoff w) f sl s = Return (r, s')"
    by (simp add: retry_def)
  from retry_loop_preserves [of P f sl, OF op sl start this] show ?thesis by simp
qed

lemma tally_write_and_flush:
  "write_and_flush env f msg st = Return (r, st') \<Longrightarrow> tally st' = tally st"
  by (auto simp: write_and_flush_def Let_def tally_def set_info_def split: option.splits)

lemma tally_writeToFile:
  assumes "writeToFile env file msg st = Return (r, st')"
  shows "tally st' = tally st"
proof -
  have upd: "tally (w\<lparr>openFilesPool := p\<rparr>, res, x) = tally (w, res, x)" for w p res x
    by (simp add: tally_def)
  have inf: "tally (w, set_info k v res, x) = tally (w, res, y)" for w k v res x y
    by (simp add: tally_def set_info_def)
  have any: "tally (w, res, x) = tally (w, res, y)" for w res x y
    by (simp add: tally_def)
  obtain w res wld where st: "st = (w, res, wld)" by (cases st)
  from assms show ?thesis
    unfolding writeToFile_def Let_def st
    by (auto split: option.splits if_splits sum.splits
        dest!: tally_write_and_flush simp: upd inf intro: any)
qed

lemma tally_sleep_state: "tally (sleep_state d st) = tally st"
  by (simp add: tally_def sleep_state_def)

lemma files_GetConn_store: "files (fst (snd (GetConn_store env f ww))) = files (fst ww)"
  by (simp add: GetConn_store_def evict_oldest_def Let_def split: option.split)

lemma files_GetConn: "files (fst (snd (GetConn env f ww))) = files (fst ww)"
  by (simp add: GetConn_def Let_def files_GetConn_store split: option.split)

lemma tally_process_job:
  assumes "process_job env file st = Return st'"
  shows "Success (fst (snd st')) + Failure (fst (snd st'))
           = Suc (Success (fst (snd st)) + Failure (fst (snd st)))
         \<and> files (fst st') = files (fst st)"
proof -
  obtain w res wld where st: "st = (w, res, wld)" by (cases st)
  let ?g = "GetConn env file (w, wld)"
  have gfiles: "files (fst (snd ?g)) = files w"
    by (simp add: files_GetConn)
  show ?thesis
  proof (cases "snd (fst ?g)")
    case (Some errConn)
    with assms have "st' = (fst (snd ?g), record_failure errConn res, snd (snd ?g))"
      by (simp add: process_job_def Let_def st)
    with gfiles show ?thesis by (simp add: st record_failure_def)
  next
    case None
    let ?st1 = "(fst (snd ?g), res, snd (snd ?g))"
    from None assms have wj: "write_job env (fst (fst ?g)) ?st1 = Return st'"
      by (simp add: process_job_def Let_def st)
    then obtain msg where msg: "message (fst (snd ?g)) = Some msg"
      by (cases "message (fst (snd ?g))") (simp_all add: write_job_def)
    let ?run = "retry (fst (snd ?g)) (writeToFile env (fst (fst ?g)) msg) sleep_state ?st1"
    from wj msg obtain r st2 where run: "?run = Return (r, st2)"
      and out: "st' = (fst st2, (case r of Some err \<Rightarrow> record_failure err (fst (snd st2))
                                | None \<Rightarrow> record_success (fst (snd st2))), snd (snd st2))"
      by (cases ?run) (auto simp: write_job_def split: option.splits)
    have "tally st2 = tally ?st1"
      by (rule retry_preserves [where P = "\<lambda>s. tally s = tally ?st1", OF _ _ _ run])
        (simp_all add: tally_writeToFile tally_sleep_state)
    then have "Success (fst (snd st2)) = Success res" "Failure (fst (snd st2)) = Failure res"
      "files (fst st2) = files w"
      using gfiles by (simp_all add: tally_def)
    then show ?thesis
      unfolding out st by (cases r) (simp_all add: record_failure_def record_success_def)
  qed
qed

lemma tally_worker:
  "worker env jobs st = Return st' \<Longrightarrow>
     Success (fst (snd st')) + Failure (fst (snd st'))
       = Success (fst (snd st)) + Failure (fst (snd st)) + length jobs
     \<and> files (fst st') = files (fst st)"
proof (induction jobs arbitrary: st)
  case Nil
  then show ?case by simp
next
  case (Cons job jobs)
  from Cons.prems obtain st1 where 1: "process_job env job st = Return st1"
    and 2: "worker env jobs st1 = Return st'"
    by (cases "process_job env job st") simp_all
  from tally_process_job [OF 1] Cons.IH [OF 2] show ?case by simp
qed

lemma batcher_zero_concat:
  assumes "files w = Some fs" and "fs \<noteq> []" and "0 < NumCPU env" and "length fs < 2 ^ 62"
  shows "\<exists>batches. batcher env w 0 = Return batches \<and> concat batches = fs"
proof -
  define s where "s = (if (0::int) \<le> 0 then max 1 (length fs div NumCPU env) else nat 0)"
  have z: "(0::int) < 2 ^ 62" by simp
  note b = batcher_chunks [OF assms z s_def]
  from ceil_div_cover [OF b(2), of "length fs"]
  have "take ((length fs + s - 1) div s * s) fs = fs" by simp
  then have "concat (map (\<lambda>i. take s (drop (i * s) fs)) [0..<(length fs + s - 1) div s]) = fs"
    by (simp only: concat_chunks_take)
  with b(1) show ?thesis by blast
qed

lemma Write_result_shape:
  assumes run: "Write env (Some w) maxWorkers wld = Return ((Some r, e), w', wld')"
    and cpu: "0 < NumCPU env" and fs: "files w = Some fs" and len: "length fs < 2 ^ 62"
  shows "\<exists>st. worker env fs (w, NewResults, wld) = Return st
           \<and> r = (fst (snd st))\<lparr>Total := length fs,
                   SuccessRate := rate (Success (fst (snd st))) (length fs),
                   FailureRate := rate (Failure (fst (snd st))) (length fs)\<rparr>
           \<and> fs \<noteq> []"
proof -
  from Write_error_iff_precondition [OF run] have "e = None" by blast
  with Write_error_iff_precondition [OF run] fs
  have ne: "fs \<noteq> []" and md: "mode w \<noteq> None" and msg: "message w \<noteq> None"
    and nd: "\<forall>c. ctx w = Some c \<longrightarrow> \<not> ctx_Done c wld"
    by auto
  from run obtain c where c: "ctx w = Some c"
    by (cases "ctx w") (simp_all add: Write_def)
  with nd have notdone: "\<not> ctx_Done c wld" by simp
  from fs md msg have fwc: "fullWriteCheck (Some w) = None"
    by (simp add: fullWriteCheck_def)
  have q: "(if 1000 < length fs
            then (case batcher env w 0 of Panic p \<Rightarrow> Panic p
                  | Return batches \<Rightarrow> Return (concat batches))
            else Return fs) = Return fs"
    using batcher_zero_concat [OF fs ne cpu len] by auto
  define mw where "mw = (if (if maxWorkers \<le> 0 then int (NumCPU env) else maxWorkers)
                           > int (length fs)
                         then int (length fs)
                         else (if maxWorkers \<le> 0 then int (NumCPU env) else maxWorkers))"
  from cpu ne have mw: "\<not> mw \<le> 0" by (auto simp: mw_def)
  have "Write env (Some w) maxWorkers wld
      = (case run_workers env mw fs (w, NewResults, wld) of
           Panic p \<Rightarrow> Panic p
         | Return st \<Rightarrow>
             (case files (fst st) of
                None \<Rightarrow> Panic NilDereference
              | Some fs1 \<Rightarrow>
                  Return ((Some ((fst (snd st))\<lparr>Total := length fs1,
                             SuccessRate := rate (Success (fst (snd st))) (length fs1),
                             FailureRate := rate (Failure (fst (snd st))) (length fs1)\<rparr>),
                           None), fst st, snd (snd st))))"
    using ne notdone
    by (simp only: Write_def option.case c fwc fs Let_def q mw_def [symmetric]
        exec.case list.size(3) length_0_conv if_False)
  with run mw obtain st where wk: "worker env fs (w, NewResults, wld) = Return st"
    and out: "(case files (fst st) of
                None \<Rightarrow> Panic NilDereference
              | Some fs1 \<Rightarrow>
                  Return ((Some ((fst (snd st))\<lparr>Total := length fs1,
                             SuccessRate := rate (Success (fst (snd st))) (length fs1),
                             FailureRate := rate (Failure (fst (snd st))) (length fs1)\<rparr>),
                           None), fst st, snd (snd st)))
              = Return ((Some r, e), w', wld')"
    by (cases "worker env fs (w, NewResults, wld)") (simp_all add: run_workers_def)
  from tally_worker [OF wk] fs have fs': "files (fst st) = Some fs"
    by simp
  from out fs' have "r = (fst (snd st))\<lparr>Total := length fs,
                             SuccessRate := rate (Success (fst (snd st))) (length fs),
                             FailureRate := rate (Failure (fst (snd st))) (length fs)\<rparr>"
    by simp
  with wk ne show ?thesis by blast
qed

text \<open>
  The two rates of the Results are the quotients of the counters by \<open>Total\<close>, as float64
  values; \<open>Total\<close> is positive, so the guard against a zero total is never needed.
\<close>

lemma Write_rates:
  assumes "Write env (Some w) maxWorkers wld = Return ((Some r, e), w', wld')"
    and "0 < NumCPU env" and "files w = Some fs" and "length fs < 2 ^ 62"
  shows "SuccessRate r = F64_quot (Success r) (Total r)
       \<and> FailureRate r = F64_quot (Failure r) (Total r) \<and> 0 < Total r"
proof -
  from Write_result_shape [OF assms] obtain st where
    "worker env fs (w, NewResults, wld) = Return st
     \<and> r = (fst (snd st))\<lparr>Total := length fs,
           SuccessRate := rate (Success (fst (snd st))) (length fs),
           FailureRate := rate (Failure (fst (snd st))) (length fs)\<rparr>
     \<and> fs \<noteq> []" ..
  then show ?thesis by (simp add: rate_def)
qed




end
